theory Spec2Isabelle
  imports Complex_Main "HOL-Library.Char_ord" "HOL-Library.List_Lexorder"
begin

section \<open>Data model\<close>

text \<open>
  The dashboard script \<^verbatim>\<open>app.py\<close> reads one CSV file into a pandas DataFrame and computes
  the figures of four tabs from it. One row of the DataFrame is a record with the six
  columns the script reads; the DataFrame \<^verbatim>\<open>data\<close> is the list of its rows in file order.
  A column \<^verbatim>\<open>data["c"]\<close> (a pandas Series) is \<open>map c data\<close>.

  Numeric cells are real numbers: the model idealises float64 arithmetic and leaves
  rounding out. The flag \<^verbatim>\<open>actual_churn\<close> is an integer (a boolean column reads as 0 and 1).

  \<open>CustomerRecord\<close> is a row in which no cell is missing. Tabs 1, 3 and 4 are modelled on
  tables of such rows.
\<close>

record CustomerRecord =
  customer_id :: string
  segment :: string
  clv_proxy :: real
  churn_probability :: real
  risk_level :: string
  actual_churn :: int

type_synonym table = "CustomerRecord list"

text \<open>
  A row as pandas reads it from the file: a cell the file leaves blank is missing (NaN).
  The segment summary of tab 2 is modelled on tables of such rows, since its counts depend
  on which cells are present. \<open>cells\<close> is the row with every cell present.
\<close>

record CsvRow =
  customer_id_cell :: "string option"
  segment_cell :: "string option"
  clv_proxy_cell :: "real option"
  churn_probability_cell :: "real option"
  risk_level_cell :: "string option"
  actual_churn_cell :: "int option"

definition cells :: "CustomerRecord \<Rightarrow> CsvRow" where
  "cells r =
     \<lparr>customer_id_cell = Some (customer_id r), segment_cell = Some (segment r),
      clv_proxy_cell = Some (clv_proxy r), churn_probability_cell = Some (churn_probability r),
      risk_level_cell = Some (risk_level r), actual_churn_cell = Some (actual_churn r)\<rparr>"

text \<open>
  A float result of pandas: a finite number, or the NaN that \<^verbatim>\<open>mean\<close> and \<^verbatim>\<open>median\<close>
  return on a Series of no values.
\<close>

datatype pyfloat = Fin real | NaN

text \<open>\<^verbatim>\<open>x * 100\<close>: NaN stays NaN.\<close>

fun fmul :: "pyfloat \<Rightarrow> real \<Rightarrow> pyfloat" where
  "fmul (Fin x) k = Fin (x * k)"
| "fmul NaN k = NaN"

text \<open>\<^verbatim>\<open>x > m\<close> on floats: every comparison with NaN is False.\<close>

fun fgt :: "real \<Rightarrow> pyfloat \<Rightarrow> bool" where
  "fgt x (Fin m) = (m < x)"
| "fgt x NaN = False"

section \<open>The pandas operations the script calls\<close>

text \<open>\<^verbatim>\<open>Series.mean()\<close>: the sum over the count, NaN on the empty Series.\<close>

definition mean :: "real list \<Rightarrow> pyfloat" where
  "mean xs = (if xs = [] then NaN else Fin (sum_list xs / real (length xs)))"

text \<open>
  \<^verbatim>\<open>Series.median()\<close>: the middle value of the sorted values, the mean of the two middle
  values when their number is even, NaN on the empty Series.
\<close>

definition median :: "real list \<Rightarrow> pyfloat" where
  "median xs =
     (let n = length xs; s = sort xs
      in if n = 0 then NaN
         else if n mod 2 = 1 then Fin (s ! (n div 2))
         else Fin ((s ! (n div 2 - 1) + s ! (n div 2)) / 2))"

text \<open>\<^verbatim>\<open>Series.nunique()\<close>: the number of distinct values.\<close>

definition nunique :: "'a list \<Rightarrow> nat" where
  "nunique xs = length (remdups xs)"

text \<open>
  \<^verbatim>\<open>Series.value_counts()\<close>: a Series indexed by the distinct values, each with the
  number of its occurrences; a value that does not occur has no entry.
\<close>

definition value_counts :: "'a list \<Rightarrow> ('a \<rightharpoonup> nat)" where
  "value_counts xs = (\<lambda>v. if v \<in> set xs then Some (count_list xs v) else None)"

text \<open>\<^verbatim>\<open>series == v\<close>, \<^verbatim>\<open>series > m\<close> and \<^verbatim>\<open>a & b\<close>: element-wise, giving boolean masks.\<close>

definition series_eq :: "'a list \<Rightarrow> 'a \<Rightarrow> bool list" where
  "series_eq s v = map (\<lambda>x. x = v) s"

definition series_gt :: "real list \<Rightarrow> pyfloat \<Rightarrow> bool list" where
  "series_gt s m = map (\<lambda>x. fgt x m) s"

definition series_and :: "bool list \<Rightarrow> bool list \<Rightarrow> bool list" where
  "series_and a b = map (\<lambda>(x, y). x \<and> y) (zip a b)"

text \<open>\<^verbatim>\<open>frame[mask]\<close>: the rows at which the mask is True, in their order.\<close>

definition getitem_mask :: "'r list \<Rightarrow> bool list \<Rightarrow> 'r list" where
  "getitem_mask rows m = map fst (filter snd (zip rows m))"

text \<open>The mean of a boolean Series counts True as 1 and False as 0.\<close>

definition mean_bool :: "bool list \<Rightarrow> pyfloat" where
  "mean_bool bs = mean (map (\<lambda>b. if b then 1 else 0) bs)"

text \<open>
  The present cells of a column that may miss cells. \<^verbatim>\<open>count\<close> is their number and
  \<^verbatim>\<open>mean\<close> their mean (both skip missing cells); \<^verbatim>\<open>groupby\<close> forms no group for a
  missing key (the default \<^verbatim>\<open>dropna=True\<close>).
\<close>

fun dropna :: "'a option list \<Rightarrow> 'a list" where
  "dropna [] = []"
| "dropna (None # xs) = dropna xs"
| "dropna (Some x # xs) = x # dropna xs"

section \<open>Loading the data\<close>

text \<open>
  \<^verbatim>\<open>load_data\<close> is \<^verbatim>\<open>pd.read_csv("data/processed/dashboard_data.csv")\<close>, called with the
  path alone: no column list, no dtypes. Reading a path with no file raises
  \<^verbatim>\<open>FileNotFoundError\<close>. A file that exists goes through pandas' parser, which is not part
  of the script: the file system gives, for each path at which a file exists, what the
  parser makes of that file, either the error it raises (\<^verbatim>\<open>EmptyDataError\<close> on a file with
  no columns, such as a file of no bytes; \<^verbatim>\<open>ParserError\<close> on rows it cannot tokenize;
  \<^verbatim>\<open>UnicodeDecodeError\<close> on bytes it cannot decode) or the frame it builds, its columns by
  name, each with the text of its cells. \<^verbatim>\<open>load_data\<close> handles none of these errors.
  Selecting a column \<^verbatim>\<open>data["c"]\<close> that the frame does not have raises \<^verbatim>\<open>KeyError\<close>.
\<close>

datatype error =
  FileNotFoundError | EmptyDataError | ParserError | UnicodeDecodeError | KeyError string

type_synonym frame = "(string \<times> string list) list"

type_synonym filesystem = "string \<rightharpoonup> (error + frame)"

definition read_csv :: "filesystem \<Rightarrow> string \<Rightarrow> error + frame" where
  "read_csv fs path = (case fs path of None \<Rightarrow> Inl FileNotFoundError | Some parsed \<Rightarrow> parsed)"

definition load_data :: "filesystem \<Rightarrow> error + frame" where
  "load_data fs = read_csv fs ''data/processed/dashboard_data.csv''"

definition getitem :: "frame \<Rightarrow> string \<Rightarrow> error + string list" where
  "getitem f c = (case map_of f c of None \<Rightarrow> Inl (KeyError c) | Some v \<Rightarrow> Inr v)"

text \<open>The columns the four tabs read.\<close>

definition required_columns :: "string list" where
  "required_columns =
     [''customer_id'', ''segment'', ''clv_proxy'', ''churn_probability'', ''risk_level'',
      ''actual_churn'']"

section \<open>Tab 1: headline aggregates and risk distribution\<close>

definition total_customers :: "table \<Rightarrow> nat" where
  "total_customers data = nunique (map customer_id data)"

definition churn_rate :: "table \<Rightarrow> pyfloat" where
  "churn_rate data = fmul (mean (map (\<lambda>r. real_of_int (actual_churn r)) data)) 100"

definition high_risk_pct :: "table \<Rightarrow> pyfloat" where
  "high_risk_pct data = fmul (mean_bool (series_eq (map risk_level data) ''High Risk'')) 100"

definition avg_clv :: "table \<Rightarrow> pyfloat" where
  "avg_clv data = mean (map clv_proxy data)"

definition risk_counts :: "table \<Rightarrow> (string \<rightharpoonup> nat)" where
  "risk_counts data = value_counts (map risk_level data)"

section \<open>Tab 3: risk filter\<close>

text \<open>
  \<^verbatim>\<open>filtered_data = data.copy(); if risk_filter != "All": filtered_data = filtered_data[...]\<close>.
  The selector \<^verbatim>\<open>risk_filter\<close> is what \<^verbatim>\<open>st.selectbox\<close> returns, a string: one of its
  four options "All", "High Risk", "Medium Risk" and "Low Risk".
\<close>

definition filtered_data :: "string \<Rightarrow> table \<Rightarrow> table" where
  "filtered_data risk_filter data =
     (if risk_filter \<noteq> ''All''
      then getitem_mask data (series_eq (map risk_level data) risk_filter)
      else data)"

section \<open>Tab 4: priority customers\<close>

definition priority_customers :: "table \<Rightarrow> table" where
  "priority_customers data =
     getitem_mask data
       (series_and (series_eq (map risk_level data) ''High Risk'')
                   (series_gt (map clv_proxy data) (median (map clv_proxy data))))"

section \<open>Tab 2: segment summary\<close>

text \<open>
  \<^verbatim>\<open>data.groupby("segment")\<close> forms one group per distinct segment value that is present,
  the groups in ascending order of the value (the default \<^verbatim>\<open>sort=True\<close>), each holding its
  rows in table order; a row whose segment is missing is in no group. \<^verbatim>\<open>agg\<close> then counts
  the present \<^verbatim>\<open>customer_id\<close> cells and averages the present \<^verbatim>\<open>clv_proxy\<close> and
  \<^verbatim>\<open>actual_churn\<close> cells of every group, and \<^verbatim>\<open>reset_index\<close> makes the segment a column
  again.
\<close>

record SegmentRow =
  seg_segment :: string
  seg_customers :: nat
  seg_avg_clv :: pyfloat
  seg_churn_rate :: pyfloat

definition groupby_segment :: "CsvRow list \<Rightarrow> (string \<times> CsvRow list) list" where
  "groupby_segment data =
     map (\<lambda>s. (s, filter (\<lambda>r. segment_cell r = Some s) data))
         (sort (remdups (dropna (map segment_cell data))))"

definition segment_summary :: "CsvRow list \<Rightarrow> SegmentRow list" where
  "segment_summary data =
     map (\<lambda>(s, g). \<lparr>seg_segment = s,
                     seg_customers = length (dropna (map customer_id_cell g)),
                     seg_avg_clv = mean (dropna (map clv_proxy_cell g)),
                     seg_churn_rate = mean (map real_of_int (dropna (map actual_churn_cell g)))\<rparr>)
         (groupby_segment data)"

section \<open>The tables shown in tabs 3 and 4\<close>

text \<open>
  Tab 3 shows five columns of \<^verbatim>\<open>filtered_data\<close>, tab 4 four columns of
  \<^verbatim>\<open>priority_customers\<close>, each passed through
  \<^verbatim>\<open>sort_values("churn_probability", ascending=False)\<close>. The call names no \<^verbatim>\<open>kind\<close>, so
  the rows are ordered by the sorting routine pandas takes by default, which is not part of
  the script; it is a parameter of the two views.
\<close>

type_synonym 'r sorter = "('r \<Rightarrow> real) \<Rightarrow> 'r list \<Rightarrow> 'r list"

type_synonym risk_row = "string \<times> string \<times> real \<times> real \<times> string"

type_synonym priority_row = "string \<times> string \<times> real \<times> real"

definition risk_view :: "risk_row sorter \<Rightarrow> string \<Rightarrow> table \<Rightarrow> risk_row list" where
  "risk_view sort_values_desc risk_filter data =
     sort_values_desc (\<lambda>(c, s, v, p, l). p)
       (map (\<lambda>r. (customer_id r, segment r, clv_proxy r, churn_probability r, risk_level r))
            (filtered_data risk_filter data))"

definition priority_view :: "priority_row sorter \<Rightarrow> table \<Rightarrow> priority_row list" where
  "priority_view sort_values_desc data =
     sort_values_desc (\<lambda>(c, s, v, p). p)
       (map (\<lambda>r. (customer_id r, segment r, clv_proxy r, churn_probability r))
            (priority_customers data))"

text \<open>
  A descending sort that keeps rows of equal key in their order, as
  \<^verbatim>\<open>sort_values(..., kind="stable")\<close> would.
\<close>

definition stable_desc :: "('r \<Rightarrow> real) \<Rightarrow> 'r list \<Rightarrow> 'r list" where
  "stable_desc key rows = rev (sort_key key (rev rows))"

section \<open>Sample tables\<close>

text \<open>The four-row table of the specification's concrete scenario.\<close>

definition example_table :: table where
  "example_table =
     [\<lparr>customer_id = ''A'', segment = ''S1'', clv_proxy = 100, churn_probability = 9/10,
       risk_level = ''High Risk'', actual_churn = 1\<rparr>,
      \<lparr>customer_id = ''B'', segment = ''S1'', clv_proxy = 50, churn_probability = 2/10,
       risk_level = ''Low Risk'', actual_churn = 0\<rparr>,
      \<lparr>customer_id = ''C'', segment = ''S2'', clv_proxy = 200, churn_probability = 8/10,
       risk_level = ''High Risk'', actual_churn = 1\<rparr>,
      \<lparr>customer_id = ''D'', segment = ''S2'', clv_proxy = 30, churn_probability = 1/10,
       risk_level = ''Low Risk'', actual_churn = 0\<rparr>]"


text \<open>
  Two tables with a blank cell: the third row of the first has no segment, the second row
  of the second no customer id.
\<close>

definition blank_segment_table :: "CsvRow list" where
  "blank_segment_table =
     [\<lparr>customer_id_cell = Some ''A'', segment_cell = Some ''S1'', clv_proxy_cell = Some 100,
       churn_probability_cell = Some (9/10), risk_level_cell = Some ''High Risk'',
       actual_churn_cell = Some 1\<rparr>,
      \<lparr>customer_id_cell = Some ''B'', segment_cell = Some ''S1'', clv_proxy_cell = Some 50,
       churn_probability_cell = Some (2/10), risk_level_cell = Some ''Low Risk'',
       actual_churn_cell = Some 0\<rparr>,
      \<lparr>customer_id_cell = Some ''C'', segment_cell = None, clv_proxy_cell = Some 200,
       churn_probability_cell = Some (8/10), risk_level_cell = Some ''High Risk'',
       actual_churn_cell = Some 1\<rparr>]"

definition blank_id_table :: "CsvRow list" where
  "blank_id_table =
     [\<lparr>customer_id_cell = Some ''A'', segment_cell = Some ''S1'', clv_proxy_cell = Some 100,
       churn_probability_cell = Some (9/10), risk_level_cell = Some ''High Risk'',
       actual_churn_cell = Some 1\<rparr>,
      \<lparr>customer_id_cell = None, segment_cell = Some ''S1'', clv_proxy_cell = Some 50,
       churn_probability_cell = Some (2/10), risk_level_cell = Some ''Low Risk'',
       actual_churn_cell = Some 0\<rparr>,
      \<lparr>customer_id_cell = Some ''C'', segment_cell = Some ''S2'', clv_proxy_cell = None,
       churn_probability_cell = Some (8/10), risk_level_cell = Some ''High Risk'',
       actual_churn_cell = Some 1\<rparr>]"

text \<open>
  A file system without the data file, one whose data file has no bytes, and one whose
  data file has a single column.
\<close>

definition no_file :: filesystem where
  "no_file = Map.empty"

definition empty_file :: filesystem where
  "empty_file = [''data/processed/dashboard_data.csv'' \<mapsto> Inl EmptyDataError]"

definition id_only_frame :: frame where
  "id_only_frame = [(''customer_id'', [''A'', ''B''])]"

definition id_only_file :: filesystem where
  "id_only_file = [''data/processed/dashboard_data.csv'' \<mapsto> Inr id_only_frame]"

section \<open>Boolean indexing is filtering\<close>

lemma getitem_mask_map: "getitem_mask rows (map P rows) = filter P rows"
  by (induction rows) (simp_all add: getitem_mask_def)

lemma series_and_map: "series_and (map P xs) (map Q xs) = map (\<lambda>x. P x \<and> Q x) xs"
  by (induction xs) (simp_all add: series_and_def)

lemma filtered_data_label:
  "sel \<noteq> ''All'' \<Longrightarrow> filtered_data sel data = filter (\<lambda>r. risk_level r = sel) data"
  by (simp add: filtered_data_def series_eq_def o_def getitem_mask_map [symmetric])

lemma length_filter_count_list: "length (filter (\<lambda>r. f r = v) xs) = count_list (map f xs) v"
  by (induction xs) simp_all

lemma priority_customers_filter:
  "priority_customers data =
     filter (\<lambda>r. risk_level r = ''High Risk''
                 \<and> fgt (clv_proxy r) (median (map clv_proxy data))) data"
  by (simp add: priority_customers_def series_eq_def series_gt_def o_def series_and_map
      getitem_mask_map [symmetric])

lemma fgt_Fin: "fgt x m \<Longrightarrow> \<exists>v. m = Fin v \<and> v < x"
  by (cases m) simp_all

section \<open>Aggregates on non-empty tables\<close>

lemma nunique_card: "nunique xs = card (set xs)"
  by (simp add: nunique_def length_remdups_card_conv)

lemma mean_nonempty: "xs \<noteq> [] \<Longrightarrow> mean xs = Fin (sum_list xs / real (length xs))"
  by (simp add: mean_def)

lemma sum_list_indicator:
  "sum_list (map (\<lambda>x. if P x then (1::real) else 0) xs) = real (length (filter P xs))"
  by (induction xs) simp_all

lemma total_customers_card: "total_customers data = card (customer_id ` set data)"
  by (simp add: total_customers_def nunique_card)

lemma churn_rate_nonempty:
  "data \<noteq> [] \<Longrightarrow>
   churn_rate data = Fin ((\<Sum>r\<leftarrow>data. real_of_int (actual_churn r)) / real (length data) * 100)"
  by (simp add: churn_rate_def mean_nonempty)

lemma high_risk_pct_nonempty:
  "data \<noteq> [] \<Longrightarrow>
   high_risk_pct data =
     Fin (real (length (filter (\<lambda>r. risk_level r = ''High Risk'') data)) / real (length data) * 100)"
  by (simp add: high_risk_pct_def mean_bool_def series_eq_def mean_nonempty o_def sum_list_indicator)

lemma avg_clv_nonempty:
  "data \<noteq> [] \<Longrightarrow> avg_clv data = Fin ((\<Sum>r\<leftarrow>data. clv_proxy r) / real (length data))"
  by (simp add: avg_clv_def mean_nonempty)




section \<open>The median splits the values in halves\<close>

text \<open>
  What \<^verbatim>\<open>median\<close> returns on a non-empty Series is a number with at least half of the
  values at or below it and at least half at or above it.
\<close>

lemma sorted_count_le:
  fixes s :: "real list"
  assumes "sorted s" and "k < length s" and "s ! k \<le> m"
  shows "Suc k \<le> length (filter (\<lambda>x. x \<le> m) s)"
proof -
  have "\<forall>x \<in> set (take (Suc k) s). x \<le> m"
  proof
    fix x assume "x \<in> set (take (Suc k) s)"
    then obtain i where i: "i < Suc k" "i < length s" "x = s ! i"
      by (auto simp: in_set_conv_nth)
    with assms(1,2) have "s ! i \<le> s ! k"
      by (intro sorted_nth_mono) simp_all
    with i assms(3) show "x \<le> m" by simp
  qed
  then have "filter (\<lambda>x. x \<le> m) (take (Suc k) s) = take (Suc k) s"
    by (simp only: filter_id_conv)
  moreover have "filter (\<lambda>x. x \<le> m) s
      = filter (\<lambda>x. x \<le> m) (take (Suc k) s) @ filter (\<lambda>x. x \<le> m) (drop (Suc k) s)"
    by (simp only: filter_append [symmetric] append_take_drop_id)
  ultimately have "length (filter (\<lambda>x. x \<le> m) s)
      = length (take (Suc k) s) + length (filter (\<lambda>x. x \<le> m) (drop (Suc k) s))"
    by simp
  with assms(2) show ?thesis by simp
qed

lemma sorted_count_ge:
  fixes s :: "real list"
  assumes "sorted s" and "k < length s" and "m \<le> s ! k"
  shows "length s - k \<le> length (filter (\<lambda>x. m \<le> x) s)"
proof -
  have "\<forall>x \<in> set (drop k s). m \<le> x"
  proof
    fix x assume "x \<in> set (drop k s)"
    then obtain i where i: "i < length s - k" "x = s ! (k + i)"
      by (auto simp: in_set_conv_nth)
    with assms(1,2) have "s ! k \<le> s ! (k + i)"
      by (intro sorted_nth_mono) simp_all
    with i assms(3) show "m \<le> x" by simp
  qed
  then have "filter (\<lambda>x. m \<le> x) (drop k s) = drop k s"
    by (simp only: filter_id_conv)
  moreover have "filter (\<lambda>x. m \<le> x) s
      = filter (\<lambda>x. m \<le> x) (take k s) @ filter (\<lambda>x. m \<le> x) (drop k s)"
    by (simp only: filter_append [symmetric] append_take_drop_id)
  ultimately have "length (filter (\<lambda>x. m \<le> x) s)
      = length (filter (\<lambda>x. m \<le> x) (take k s)) + length (drop k s)"
    by simp
  then show ?thesis by simp
qed

lemma length_filter_sort:
  "length (filter P (sort xs)) = length (filter P (xs :: real list))"
  by (simp add: filter_sort)

lemma median_halves:
  assumes "xs \<noteq> []"
  shows "\<exists>m. median xs = Fin m
           \<and> length xs \<le> 2 * length (filter (\<lambda>x. x \<le> m) xs)
           \<and> length xs \<le> 2 * length (filter (\<lambda>x. m \<le> x) xs)"
proof -
  define s where "s = sort xs"
  define n where "n = length xs"
  define h where "h = n div 2"
  have srt: "sorted s" and len: "length s = n"
    by (simp_all add: s_def n_def)
  from assms have npos: "0 < n" by (simp add: n_def)
  show ?thesis
  proof (cases "n mod 2 = 1")
    case True
    then have n: "n = 2 * h + 1" unfolding h_def by presburger
    have med: "median xs = Fin (s ! h)"
      using True npos by (simp add: median_def Let_def s_def n_def h_def)
    have hl: "h < length s" using n len by simp
    from sorted_count_le [OF srt hl order_refl]
    have a: "Suc h \<le> length (filter (\<lambda>x. x \<le> s ! h) xs)"
      by (simp only: s_def length_filter_sort)
    from sorted_count_ge [OF srt hl order_refl]
    have b: "length s - h \<le> length (filter (\<lambda>x. s ! h \<le> x) xs)"
      by (simp only: s_def length_filter_sort)
    from a b n len have "n \<le> 2 * length (filter (\<lambda>x. x \<le> s ! h) xs)"
      and "n \<le> 2 * length (filter (\<lambda>x. s ! h \<le> x) xs)"
      by simp_all
    with med show ?thesis unfolding n_def by blast
  next
    case False
    then have n: "n = 2 * h" unfolding h_def by presburger
    with npos have hpos: "0 < h" by simp
    define m where "m = (s ! (h - 1) + s ! h) / 2"
    have med: "median xs = Fin m"
      using False npos by (simp add: median_def Let_def s_def n_def h_def m_def)
    have hl: "h < length s" and hl1: "h - 1 < length s"
      using n len hpos by simp_all
    have "s ! (h - 1) \<le> s ! h"
      using srt hl by (intro sorted_nth_mono) simp_all
    then have lo: "s ! (h - 1) \<le> m" and hi: "m \<le> s ! h"
      by (simp_all add: m_def)
    from sorted_count_le [OF srt hl1 lo]
    have a: "Suc (h - 1) \<le> length (filter (\<lambda>x. x \<le> m) xs)"
      by (simp only: s_def length_filter_sort)
    from sorted_count_ge [OF srt hl hi]
    have b: "length s - h \<le> length (filter (\<lambda>x. m \<le> x) xs)"
      by (simp only: s_def length_filter_sort)
    from a b n len hpos have "n \<le> 2 * length (filter (\<lambda>x. x \<le> m) xs)"
      and "n \<le> 2 * length (filter (\<lambda>x. m \<le> x) xs)"
      by simp_all
    with med show ?thesis unfolding n_def by blast
  qed
qed

section \<open>Priority subset\<close>

text \<open>
  C1. The priority subset is the table filtered by the conjunction of two tests: the risk
  level is "High Risk", and \<^verbatim>\<open>clv_proxy\<close> is greater than the median of \<^verbatim>\<open>clv_proxy\<close> over
  all rows of the table (the median is taken of the unfiltered column). So every row of it
  is a High Risk row of the table, and its \<^verbatim>\<open>clv_proxy\<close> lies strictly above that median,
  which is then a number.
\<close>

theorem priority_customers_exact:
  "priority_customers data =
     filter (\<lambda>r. risk_level r = ''High Risk''
                 \<and> fgt (clv_proxy r) (median (map clv_proxy data))) data
   \<and> set (priority_customers data) \<subseteq> {r \<in> set data. risk_level r = ''High Risk''}
   \<and> (\<forall>r \<in> set (priority_customers data).
         \<exists>m. median (map clv_proxy data) = Fin m \<and> m < clv_proxy r)"
proof (intro conjI)
  show "priority_customers data =
     filter (\<lambda>r. risk_level r = ''High Risk''
                 \<and> fgt (clv_proxy r) (median (map clv_proxy data))) data"
    by (rule priority_customers_filter)
  show "set (priority_customers data) \<subseteq> {r \<in> set data. risk_level r = ''High Risk''}"
    by (auto simp: priority_customers_filter)
  show "\<forall>r \<in> set (priority_customers data).
         \<exists>m. median (map clv_proxy data) = Fin m \<and> m < clv_proxy r"
    by (auto simp: priority_customers_filter dest: fgt_Fin)
qed

text \<open>On the sample table the median is 75 and the priority subset is rows A and C.\<close>

theorem priority_customers_exact_witness:
  "priority_customers example_table = [example_table ! 0, example_table ! 2]
   \<and> median (map clv_proxy example_table) = Fin 75
   \<and> set (priority_customers example_table)
       \<subseteq> {r \<in> set example_table. risk_level r = ''High Risk''}
   \<and> list_all (\<lambda>r. 75 < clv_proxy r) (priority_customers example_table)"
proof -
  have m: "median (map clv_proxy example_table) = Fin 75"
    by (simp add: median_def example_table_def)
  have f: "filter (\<lambda>r. risk_level r = ''High Risk''
                 \<and> fgt (clv_proxy r) (Fin 75)) example_table = [example_table ! 0, example_table ! 2]"
    by (simp add: example_table_def)
  note t = priority_customers_exact [of example_table]
  from t have p1: "priority_customers example_table =
     filter (\<lambda>r. risk_level r = ''High Risk''
                 \<and> fgt (clv_proxy r) (median (map clv_proxy example_table))) example_table"
    by (rule conjunct1)
  from t have p2: "set (priority_customers example_table)
       \<subseteq> {r \<in> set example_table. risk_level r = ''High Risk''}"
    by (rule conjunct1 [OF conjunct2])
  from t have p3: "\<forall>r \<in> set (priority_customers example_table).
         \<exists>v. median (map clv_proxy example_table) = Fin v \<and> v < clv_proxy r"
    by (rule conjunct2 [OF conjunct2])
  have e: "priority_customers example_table = [example_table ! 0, example_table ! 2]"
    unfolding p1 m by (rule f)
  from p3 have "\<forall>r \<in> set (priority_customers example_table).
         \<exists>v. Fin 75 = Fin v \<and> v < clv_proxy r"
    by (simp only: m)
  then have "\<forall>r \<in> set (priority_customers example_table). 75 < clv_proxy r"
    by simp
  then have g: "list_all (\<lambda>r. 75 < clv_proxy r) (priority_customers example_table)"
    by (simp only: list_all_iff)
  from e m p2 g show ?thesis
    by (intro conjI)
qed

section \<open>Headline aggregates\<close>

text \<open>
  C2. On a non-empty table the four headline figures are the number of distinct customer
  ids, the mean of \<^verbatim>\<open>actual_churn\<close> times 100, the share of High Risk rows times 100 and
  the mean of \<^verbatim>\<open>clv_proxy\<close>.
\<close>

theorem headline_aggregates:
  "data \<noteq> [] \<Longrightarrow>
     total_customers data = card (customer_id ` set data)
   \<and> churn_rate data = Fin ((\<Sum>r\<leftarrow>data. real_of_int (actual_churn r)) / real (length data) * 100)
   \<and> high_risk_pct data =
       Fin (real (length (filter (\<lambda>r. risk_level r = ''High Risk'') data)) / real (length data) * 100)
   \<and> avg_clv data = Fin ((\<Sum>r\<leftarrow>data. clv_proxy r) / real (length data))"
  by (simp add: total_customers_card churn_rate_nonempty high_risk_pct_nonempty avg_clv_nonempty)

text \<open>On the sample table these are 4, 50, 50 and 95.\<close>

theorem headline_aggregates_witness:
  "example_table \<noteq> []
   \<and> total_customers example_table = 4
   \<and> churn_rate example_table = Fin 50
   \<and> high_risk_pct example_table = Fin 50
   \<and> avg_clv example_table = Fin 95"
proof -
  have ne: "example_table \<noteq> []"
    by (simp add: example_table_def)
  have c: "card (customer_id ` set example_table) = 4"
    by (simp add: example_table_def)
  have s1: "(\<Sum>r\<leftarrow>example_table. real_of_int (actual_churn r)) = 2"
    by (simp add: example_table_def)
  have s2: "length (filter (\<lambda>r. risk_level r = ''High Risk'') example_table) = 2"
    by (simp add: example_table_def)
  have s3: "(\<Sum>r\<leftarrow>example_table. clv_proxy r) = 380"
    by (simp add: example_table_def)
  have l: "length example_table = 4"
    by (simp add: example_table_def)
  from headline_aggregates [OF ne] show ?thesis
    by (simp add: ne c s1 s2 s3 l)
qed

text \<open>
  C3, as stated, fails: on the table of no rows the three means are computed all the same,
  and each of them is NaN.
\<close>

theorem empty_table_counterexample:
  "churn_rate [] = NaN \<and> high_risk_pct [] = NaN \<and> avg_clv [] = NaN"
  by (simp add: churn_rate_def high_risk_pct_def avg_clv_def mean_bool_def series_eq_def mean_def)

text \<open>
  C3, amended. The headline aggregation has no error path: on the empty table it yields
  the customer count 0 and NaN for churn rate, high-risk percentage and average CLV.
\<close>

theorem empty_table_nan:
  "data = [] \<Longrightarrow>
     total_customers data = 0 \<and> churn_rate data = NaN \<and> high_risk_pct data = NaN
   \<and> avg_clv data = NaN"
  by (simp add: total_customers_def nunique_def churn_rate_def high_risk_pct_def avg_clv_def
      mean_bool_def series_eq_def mean_def)

text \<open>The four figures of the table of no rows.\<close>

theorem empty_table_nan_witness:
  "total_customers [] = 0 \<and> churn_rate [] = NaN \<and> high_risk_pct [] = NaN \<and> avg_clv [] = NaN"
  by (rule empty_table_nan [OF refl])



section \<open>Risk filter\<close>

text \<open>
  C5. With the sentinel "All" the risk filter returns the input table itself: the same
  rows in the same order, hence the same row count and the same rows with the same
  multiplicities.
\<close>

theorem filtered_data_All:
  "filtered_data ''All'' data = data
   \<and> length (filtered_data ''All'' data) = length data
   \<and> set (filtered_data ''All'' data) = set data"
  by (simp add: filtered_data_def)

text \<open>
  C4. For each of the labels "High Risk", "Medium Risk" and "Low Risk" the risk filter
  returns the rows whose risk level is that label, in table order, and their number is the
  count the risk distribution holds for the label (no entry for a label that no row
  carries, which counts as 0).
\<close>

theorem risk_filter_label:
  "L \<in> {''High Risk'', ''Medium Risk'', ''Low Risk''} \<Longrightarrow>
     filtered_data L data = filter (\<lambda>r. risk_level r = L) data
   \<and> length (filtered_data L data) = (case risk_counts data L of None \<Rightarrow> 0 | Some n \<Rightarrow> n)"
proof -
  assume "L \<in> {''High Risk'', ''Medium Risk'', ''Low Risk''}"
  then have "L \<noteq> ''All''" by auto
  then have f: "filtered_data L data = filter (\<lambda>r. risk_level r = L) data"
    by (rule filtered_data_label)
  have "length (filter (\<lambda>r. risk_level r = L) data) = count_list (map risk_level data) L"
    by (rule length_filter_count_list)
  moreover have "L \<notin> set (map risk_level data) \<Longrightarrow> count_list (map risk_level data) L = 0"
    by (simp add: count_list_0_iff)
  ultimately have "length (filter (\<lambda>r. risk_level r = L) data)
      = (case risk_counts data L of None \<Rightarrow> 0 | Some n \<Rightarrow> n)"
    by (simp add: risk_counts_def value_counts_def)
  with f show ?thesis by simp
qed

theorem risk_filter_label_witness:
  "''High Risk'' \<in> {''High Risk'', ''Medium Risk'', ''Low Risk''}
   \<and> filtered_data ''High Risk'' example_table = [example_table ! 0, example_table ! 2]
   \<and> risk_counts example_table ''High Risk'' = Some 2
   \<and> length (filtered_data ''High Risk'' example_table) = 2"
proof -
  have m: "''High Risk'' \<in> {''High Risk'', ''Medium Risk'', ''Low Risk''}" by simp
  have f: "filter (\<lambda>r. risk_level r = ''High Risk'') example_table
             = [example_table ! 0, example_table ! 2]"
    by (simp add: example_table_def)
  have c: "risk_counts example_table ''High Risk'' = Some 2"
    by (simp add: risk_counts_def value_counts_def example_table_def)
  from risk_filter_label [OF m, of example_table] f c show ?thesis by simp
qed

section \<open>Segment summary\<close>

lemma set_dropna: "set (dropna xs) = {x. Some x \<in> set xs}"
  by (induction xs rule: dropna.induct) auto

lemma length_dropna_map:
  "length (dropna (map f xs)) = length (filter (\<lambda>r. f r \<noteq> None) xs)"
  by (induction xs) (auto split: option.splits)

lemma segment_summary_keys:
  "map seg_segment (segment_summary data) = sort (remdups (dropna (map segment_cell data)))"
  by (simp add: segment_summary_def groupby_segment_def o_def)

lemma segment_summary_key_set:
  "set (map seg_segment (segment_summary data)) = {s. Some s \<in> segment_cell ` set data}"
  by (simp add: segment_summary_keys set_dropna)

lemma length_filter_disj:
  "k \<notin> set ks \<Longrightarrow>
   length (filter (\<lambda>r. f r = k) xs) + length (filter (\<lambda>r. f r \<in> set ks) xs)
     = length (filter (\<lambda>r. f r = k \<or> f r \<in> set ks) xs)"
  by (induction xs) auto

lemma sum_group_sizes:
  "distinct ks \<Longrightarrow>
   sum_list (map (\<lambda>k. length (filter (\<lambda>r. f r = k) xs)) ks)
     = length (filter (\<lambda>r. f r \<in> set ks) xs)"
proof (induction ks)
  case Nil
  then show ?case by simp
next
  case (Cons k ks)
  then have "k \<notin> set ks" and "distinct ks" by simp_all
  with Cons.IH length_filter_disj [of k ks f xs] show ?case by simp
qed

lemma segment_summary_counts:
  "map seg_customers (segment_summary data)
     = map (\<lambda>s. length (filter (\<lambda>r. segment_cell r = Some s)
                          (filter (\<lambda>r. customer_id_cell r \<noteq> None) data)))
           (sort (remdups (dropna (map segment_cell data))))"
  by (simp add: segment_summary_def groupby_segment_def o_def length_dropna_map conj_commute)

lemma segment_summary_total:
  "sum_list (map seg_customers (segment_summary data))
     = length (filter (\<lambda>r. segment_cell r \<noteq> None \<and> customer_id_cell r \<noteq> None) data)"
proof -
  define ks where "ks = sort (remdups (dropna (map segment_cell data)))"
  define xs where "xs = filter (\<lambda>r. customer_id_cell r \<noteq> None) data"
  have d: "distinct (map Some ks)"
    by (simp add: ks_def distinct_map)
  have "sum_list (map seg_customers (segment_summary data))
          = sum_list (map (\<lambda>k. length (filter (\<lambda>r. segment_cell r = k) xs)) (map Some ks))"
    by (simp add: segment_summary_counts ks_def xs_def o_def)
  also have "\<dots> = length (filter (\<lambda>r. segment_cell r \<in> set (map Some ks)) xs)"
    by (rule sum_group_sizes [OF d])
  also have "filter (\<lambda>r. segment_cell r \<in> set (map Some ks)) xs
               = filter (\<lambda>r. segment_cell r \<noteq> None) xs"
  proof (rule filter_cong [OF refl])
    fix r assume "r \<in> set xs"
    then have r: "r \<in> set data" by (simp add: xs_def)
    show "(segment_cell r \<in> set (map Some ks)) = (segment_cell r \<noteq> None)"
    proof (cases "segment_cell r")
      case None
      then show ?thesis by auto
    next
      case (Some s)
      with r have "Some s \<in> segment_cell ` set data" by force
      then have "s \<in> set ks" by (simp add: ks_def set_dropna)
      with Some show ?thesis by simp
    qed
  qed
  finally show ?thesis
    by (simp add: xs_def conj_commute)
qed

lemma segment_summary_row:
  assumes "g \<in> set (segment_summary data)"
  shows "seg_customers g =
           length (filter (\<lambda>r. segment_cell r = Some (seg_segment g)
                              \<and> customer_id_cell r \<noteq> None) data)
     \<and> seg_avg_clv g =
         mean (dropna (map clv_proxy_cell
                 (filter (\<lambda>r. segment_cell r = Some (seg_segment g)) data)))
     \<and> seg_churn_rate g =
         mean (map real_of_int (dropna (map actual_churn_cell
                 (filter (\<lambda>r. segment_cell r = Some (seg_segment g)) data))))"
proof -
  from assms obtain s where
    g: "g = \<lparr>seg_segment = s,
             seg_customers =
               length (dropna (map customer_id_cell (filter (\<lambda>r. segment_cell r = Some s) data))),
             seg_avg_clv =
               mean (dropna (map clv_proxy_cell (filter (\<lambda>r. segment_cell r = Some s) data))),
             seg_churn_rate =
               mean (map real_of_int (dropna (map actual_churn_cell
                       (filter (\<lambda>r. segment_cell r = Some s) data))))\<rparr>"
    by (auto simp: segment_summary_def groupby_segment_def)
  show ?thesis
    by (simp add: g length_dropna_map)
qed

text \<open>
  C9, as stated, fails: of the three rows of a table whose third row has a blank segment,
  the summary counts two.
\<close>

theorem segment_summary_counterexample:
  "sum_list (map seg_customers (segment_summary blank_segment_table)) = 2
   \<and> length blank_segment_table = 3"
  by (simp add: segment_summary_def groupby_segment_def blank_segment_table_def)

text \<open>
  C9, amended. The segment summary has one row per distinct segment value present in the
  table: none is left out and none appears twice. The row of a segment carries the number
  of that segment's rows whose customer id is present, and the means of the present
  \<^verbatim>\<open>clv_proxy\<close> and of the present \<^verbatim>\<open>actual_churn\<close> cells of the segment's rows. The
  customer counts add up to the number of rows in which both segment and customer id are
  present, which is the number of rows of the table when no row misses either.
\<close>

theorem segment_summary_groups:
  "distinct (map seg_segment (segment_summary data))
   \<and> set (map seg_segment (segment_summary data)) = {s. Some s \<in> segment_cell ` set data}
   \<and> (\<forall>g \<in> set (segment_summary data).
         seg_customers g =
           length (filter (\<lambda>r. segment_cell r = Some (seg_segment g)
                              \<and> customer_id_cell r \<noteq> None) data)
       \<and> seg_avg_clv g =
           mean (dropna (map clv_proxy_cell
                   (filter (\<lambda>r. segment_cell r = Some (seg_segment g)) data)))
       \<and> seg_churn_rate g =
           mean (map real_of_int (dropna (map actual_churn_cell
                   (filter (\<lambda>r. segment_cell r = Some (seg_segment g)) data)))))
   \<and> sum_list (map seg_customers (segment_summary data))
       = length (filter (\<lambda>r. segment_cell r \<noteq> None \<and> customer_id_cell r \<noteq> None) data)
   \<and> ((\<forall>r \<in> set data. segment_cell r \<noteq> None \<and> customer_id_cell r \<noteq> None)
        \<longrightarrow> sum_list (map seg_customers (segment_summary data)) = length data)"
proof (intro conjI ballI impI)
  show "distinct (map seg_segment (segment_summary data))"
    by (simp add: segment_summary_keys)
  show "set (map seg_segment (segment_summary data)) = {s. Some s \<in> segment_cell ` set data}"
    by (rule segment_summary_key_set)
  show "sum_list (map seg_customers (segment_summary data))
       = length (filter (\<lambda>r. segment_cell r \<noteq> None \<and> customer_id_cell r \<noteq> None) data)"
    by (rule segment_summary_total)
  show "sum_list (map seg_customers (segment_summary data)) = length data"
    if "\<forall>r \<in> set data. segment_cell r \<noteq> None \<and> customer_id_cell r \<noteq> None"
  proof -
    from that
    have "filter (\<lambda>r. segment_cell r \<noteq> None \<and> customer_id_cell r \<noteq> None) data = data"
      by (simp only: filter_id_conv)
    then show ?thesis
      by (simp only: segment_summary_total)
  qed
next
  fix g assume g: "g \<in> set (segment_summary data)"
  note r = segment_summary_row [OF g]
  from r show "seg_customers g =
           length (filter (\<lambda>r. segment_cell r = Some (seg_segment g)
                              \<and> customer_id_cell r \<noteq> None) data)"
    by (elim conjE)
  from r show "seg_avg_clv g =
           mean (dropna (map clv_proxy_cell
                   (filter (\<lambda>r. segment_cell r = Some (seg_segment g)) data)))"
    by (elim conjE)
  from r show "seg_churn_rate g =
           mean (map real_of_int (dropna (map actual_churn_cell
                   (filter (\<lambda>r. segment_cell r = Some (seg_segment g)) data))))"
    by (elim conjE)
qed

text \<open>
  On the table with a blank customer id the counts add up to 2 of 3 rows; on the sample
  table, where every cell is present, to all 4.
\<close>

theorem segment_summary_groups_witness:
  "segment_summary blank_id_table =
     [\<lparr>seg_segment = ''S1'', seg_customers = 1, seg_avg_clv = Fin 75, seg_churn_rate = Fin (1/2)\<rparr>,
      \<lparr>seg_segment = ''S2'', seg_customers = 1, seg_avg_clv = NaN, seg_churn_rate = Fin 1\<rparr>]
   \<and> sum_list (map seg_customers (segment_summary blank_id_table)) = 2
   \<and> length blank_id_table = 3
   \<and> list_all (\<lambda>r. segment_cell r \<noteq> None \<and> customer_id_cell r \<noteq> None)
        (map cells example_table)
   \<and> distinct (map seg_segment (segment_summary (map cells example_table)))
   \<and> set (map seg_segment (segment_summary (map cells example_table))) = {''S1'', ''S2''}
   \<and> length (filter (\<lambda>r. segment_cell r = Some ''S1'' \<and> customer_id_cell r \<noteq> None)
        (map cells example_table)) = 2
   \<and> sum_list (map seg_customers (segment_summary (map cells example_table))) = 4"
proof -
  have e1: "segment_summary blank_id_table =
     [\<lparr>seg_segment = ''S1'', seg_customers = 1, seg_avg_clv = Fin 75, seg_churn_rate = Fin (1/2)\<rparr>,
      \<lparr>seg_segment = ''S2'', seg_customers = 1, seg_avg_clv = NaN, seg_churn_rate = Fin 1\<rparr>]"
    by (simp add: segment_summary_def groupby_segment_def blank_id_table_def mean_def)
  have f1: "length (filter (\<lambda>r. segment_cell r \<noteq> None \<and> customer_id_cell r \<noteq> None)
              blank_id_table) = 2"
    by (simp add: blank_id_table_def)
  have l1: "length blank_id_table = 3"
    by (simp add: blank_id_table_def)
  note t = segment_summary_groups [of blank_id_table]
  from t have "sum_list (map seg_customers (segment_summary blank_id_table))
       = length (filter (\<lambda>r. segment_cell r \<noteq> None \<and> customer_id_cell r \<noteq> None)
           blank_id_table)"
    by (rule conjunct1 [OF conjunct2 [OF conjunct2 [OF conjunct2]]])
  then have s1: "sum_list (map seg_customers (segment_summary blank_id_table)) = 2"
    by (simp only: f1)
  have e2: "segment_summary (map cells example_table) =
     [\<lparr>seg_segment = ''S1'', seg_customers = 2, seg_avg_clv = Fin 75, seg_churn_rate = Fin (1/2)\<rparr>,
      \<lparr>seg_segment = ''S2'', seg_customers = 2, seg_avg_clv = Fin 115, seg_churn_rate = Fin (1/2)\<rparr>]"
    by (simp add: segment_summary_def groupby_segment_def example_table_def cells_def mean_def)
  have c2: "\<forall>r \<in> set (map cells example_table).
              segment_cell r \<noteq> None \<and> customer_id_cell r \<noteq> None"
    by (simp add: cells_def)
  then have c2': "list_all (\<lambda>r. segment_cell r \<noteq> None \<and> customer_id_cell r \<noteq> None)
        (map cells example_table)"
    by (simp only: list_all_iff)
  have i2: "{s. Some s \<in> segment_cell ` set (map cells example_table)} = {''S1'', ''S2''}"
    by (auto simp: example_table_def cells_def)
  have l2: "length (map cells example_table) = 4"
    by (simp add: example_table_def)
  note u = segment_summary_groups [of "map cells example_table"]
  from u have u1: "distinct (map seg_segment (segment_summary (map cells example_table)))"
    by (rule conjunct1)
  from u have "set (map seg_segment (segment_summary (map cells example_table)))
      = {s. Some s \<in> segment_cell ` set (map cells example_table)}"
    by (rule conjunct1 [OF conjunct2])
  then have u2: "set (map seg_segment (segment_summary (map cells example_table)))
      = {''S1'', ''S2''}"
    by (simp only: i2)
  from u have u3: "\<forall>g \<in> set (segment_summary (map cells example_table)).
         seg_customers g =
           length (filter (\<lambda>r. segment_cell r = Some (seg_segment g)
                              \<and> customer_id_cell r \<noteq> None) (map cells example_table))
       \<and> seg_avg_clv g =
           mean (dropna (map clv_proxy_cell
                   (filter (\<lambda>r. segment_cell r = Some (seg_segment g)) (map cells example_table))))
       \<and> seg_churn_rate g =
           mean (map real_of_int (dropna (map actual_churn_cell
                   (filter (\<lambda>r. segment_cell r = Some (seg_segment g))
                      (map cells example_table)))))"
    by (rule conjunct1 [OF conjunct2 [OF conjunct2]])
  have m: "\<lparr>seg_segment = ''S1'', seg_customers = 2, seg_avg_clv = Fin 75,
            seg_churn_rate = Fin (1/2)\<rparr> \<in> set (segment_summary (map cells example_table))"
    by (simp only: e2 list.set insertI1)
  from bspec [OF u3 m]
  have u3': "length (filter (\<lambda>r. segment_cell r = Some ''S1'' \<and> customer_id_cell r \<noteq> None)
        (map cells example_table)) = 2"
    by simp
  from u have "(\<forall>r \<in> set (map cells example_table).
                  segment_cell r \<noteq> None \<and> customer_id_cell r \<noteq> None)
        \<longrightarrow> sum_list (map seg_customers (segment_summary (map cells example_table)))
              = length (map cells example_table)"
    by (rule conjunct2 [OF conjunct2 [OF conjunct2 [OF conjunct2]]])
  from this c2
  have "sum_list (map seg_customers (segment_summary (map cells example_table)))
              = length (map cells example_table)"
    by (rule mp)
  then have u5: "sum_list (map seg_customers (segment_summary (map cells example_table))) = 4"
    by (simp only: l2)
  from e1 s1 l1 c2' u1 u2 u3' u5 show ?thesis
    by (intro conjI)
qed

section \<open>Loader\<close>

text \<open>
  C8, as stated, fails: a data file that has the column \<^verbatim>\<open>customer_id\<close> only, and so lacks
  the required column \<^verbatim>\<open>segment\<close>, is loaded without an error.
\<close>

theorem load_data_counterexample:
  "load_data id_only_file = Inr id_only_frame
   \<and> ''segment'' \<in> set required_columns
   \<and> ''segment'' \<notin> set (map fst id_only_frame)"
  by (simp add: load_data_def read_csv_def id_only_file_def id_only_frame_def
      required_columns_def)

lemma getitem_missing: "c \<notin> set (map fst f) \<Longrightarrow> getitem f c = Inl (KeyError c)"
proof -
  assume "c \<notin> set (map fst f)"
  then have "map_of f c = None"
    by (simp add: map_of_eq_None_iff)
  then show ?thesis
    by (simp add: getitem_def)
qed

text \<open>
  C8, amended. Loading fails when the data file is missing, with \<^verbatim>\<open>FileNotFoundError\<close>,
  and when it is malformed so that pandas cannot parse it, with the parser's error. The
  loader checks no schema: a file that parses is returned as the frame read from it,
  whatever its columns, and a column the file lacks is met only where a tab selects it, as
  a \<^verbatim>\<open>KeyError\<close>.
\<close>

theorem load_data_no_schema_check:
  "(fs ''data/processed/dashboard_data.csv'' = None \<longrightarrow> load_data fs = Inl FileNotFoundError)
   \<and> (\<forall>e. fs ''data/processed/dashboard_data.csv'' = Some (Inl e) \<longrightarrow> load_data fs = Inl e)
   \<and> (\<forall>f. fs ''data/processed/dashboard_data.csv'' = Some (Inr f) \<longrightarrow>
          load_data fs = Inr f
        \<and> (\<forall>c. c \<notin> set (map fst f) \<longrightarrow> getitem f c = Inl (KeyError c)))"
  by (simp add: load_data_def read_csv_def getitem_missing del: set_map)

text \<open>No file, a file of no bytes, and a file with the single column \<^verbatim>\<open>customer_id\<close>.\<close>

theorem load_data_no_schema_check_witness:
  "load_data no_file = Inl FileNotFoundError
   \<and> load_data empty_file = Inl EmptyDataError
   \<and> load_data id_only_file = Inr id_only_frame
   \<and> getitem id_only_frame ''segment'' = Inl (KeyError ''segment'')
   \<and> getitem id_only_frame ''customer_id'' = Inr [''A'', ''B'']"
proof -
  have n: "no_file ''data/processed/dashboard_data.csv'' = None"
    by (simp add: no_file_def)
  have z: "empty_file ''data/processed/dashboard_data.csv'' = Some (Inl EmptyDataError)"
    by (simp add: empty_file_def)
  have p: "id_only_file ''data/processed/dashboard_data.csv'' = Some (Inr id_only_frame)"
    by (simp add: id_only_file_def)
  have m: "''segment'' \<notin> set (map fst id_only_frame)"
    by (simp add: id_only_frame_def)
  have g: "getitem id_only_frame ''customer_id'' = Inr [''A'', ''B'']"
    by (simp add: getitem_def id_only_frame_def)
  from load_data_no_schema_check [of no_file] n
  have a: "load_data no_file = Inl FileNotFoundError"
    by (elim conjE) (erule mp)
  from load_data_no_schema_check [of empty_file]
  have "\<forall>e. empty_file ''data/processed/dashboard_data.csv'' = Some (Inl e)
          \<longrightarrow> load_data empty_file = Inl e"
    by (rule conjunct1 [OF conjunct2])
  then have "empty_file ''data/processed/dashboard_data.csv'' = Some (Inl EmptyDataError)
          \<longrightarrow> load_data empty_file = Inl EmptyDataError"
    by (rule spec)
  from this z have b: "load_data empty_file = Inl EmptyDataError"
    by (rule mp)
  from load_data_no_schema_check [of id_only_file]
  have "\<forall>f. id_only_file ''data/processed/dashboard_data.csv'' = Some (Inr f) \<longrightarrow>
          load_data id_only_file = Inr f
        \<and> (\<forall>c. c \<notin> set (map fst f) \<longrightarrow> getitem f c = Inl (KeyError c))"
    by (rule conjunct2 [OF conjunct2])
  then have "id_only_file ''data/processed/dashboard_data.csv'' = Some (Inr id_only_frame) \<longrightarrow>
          load_data id_only_file = Inr id_only_frame
        \<and> (\<forall>c. c \<notin> set (map fst id_only_frame) \<longrightarrow> getitem id_only_frame c = Inl (KeyError c))"
    by (rule spec)
  from this p have c: "load_data id_only_file = Inr id_only_frame
        \<and> (\<forall>c. c \<notin> set (map fst id_only_frame) \<longrightarrow> getitem id_only_frame c = Inl (KeyError c))"
    by (rule mp)
  then have c1: "load_data id_only_file = Inr id_only_frame"
    by (rule conjunct1)
  from c have "''segment'' \<notin> set (map fst id_only_frame)
        \<longrightarrow> getitem id_only_frame ''segment'' = Inl (KeyError ''segment'')"
    by (elim conjE) (erule spec)
  from this m have d: "getitem id_only_frame ''segment'' = Inl (KeyError ''segment'')"
    by (rule mp)
  from a b c1 d g show ?thesis
    by (intro conjI)
qed

section \<open>Order of the displayed tables\<close>

text \<open>
  Whatever routine sorts, if its output is in descending key order then so are both
  displayed tables.
\<close>

lemma risk_view_descending:
  assumes "\<And>key rows. sorted (rev (map key (srt key rows)))"
  shows "sorted (rev (map (\<lambda>(c, s, v, p, l). p) (risk_view srt sel data)))"
  unfolding risk_view_def by (rule assms)

lemma priority_view_descending:
  assumes "\<And>key rows. sorted (rev (map key (srt key rows)))"
  shows "sorted (rev (map (\<lambda>(c, s, v, p). p) (priority_view srt data)))"
  unfolding priority_view_def by (rule assms)

text \<open>
  The stable descending sort orders by key, keeps the rows, and leaves rows of equal key in
  their original order; with it, rows of equal churn probability are displayed in table
  order.
\<close>

lemma stable_desc_sorted: "sorted (rev (map key (stable_desc key rows)))"
  by (simp add: stable_desc_def rev_map [symmetric])

lemma stable_desc_set: "set (stable_desc key rows) = set rows"
  by (simp add: stable_desc_def)

lemma stable_desc_length: "length (stable_desc key rows) = length rows"
  by (simp add: stable_desc_def)

lemma stable_desc_ties:
  "filter (\<lambda>r. key r = k) (stable_desc key rows) = filter (\<lambda>r. key r = k) rows"
  by (simp add: stable_desc_def rev_filter [symmetric] sort_key_stable)

lemma risk_view_stable:
  "filter (\<lambda>(c, s, v, p, l). p = k) (risk_view stable_desc sel data)
     = filter (\<lambda>(c, s, v, p, l). p = k)
         (map (\<lambda>r. (customer_id r, segment r, clv_proxy r, churn_probability r, risk_level r))
              (filtered_data sel data))"
  unfolding risk_view_def
  using stable_desc_ties [of "\<lambda>(c, s, v, p, l). p" k]
  by (simp add: case_prod_unfold)

end
